theory Spec2Isabelle
  imports Complex_Main "HOL-Library.Word"
begin

chapter \<open>The module\<close>

section \<open>Conventions of the embedding\<close>

text \<open>
  The module \<^verbatim>\<open>common/util.py\<close> is a set of helpers on torch tensors and numpy
  arrays. A one-dimensional tensor is a list, a two-dimensional one a list of rows.
  Integer tensors hold \<open>int\<close>s; floating-point tensors and Python floats are idealised
  as \<open>real\<close>s (rounding, overflow to infinity and NaN are not part of the model: where
  an operation leaves the reals, as the logarithm of a non-positive number does, the
  model says so with \<open>None\<close>). Every Python exception is a value of type \<open>error\<close>, and a
  function that can raise returns \<open>error + 'a\<close>.
\<close>

datatype error =
    RuntimeError
  | TypeError
  | KeyError
  | IndexError
  | ValueError
  | UnboundLocalError
  | ZeroDivisionError
  | FileNotFoundError

section \<open>schedule\<close>

text \<open>
  \<^verbatim>\<open>
  def schedule(batch_num, anneal_type="sigmoid"):
      if anneal_type == "linear":
          return min(1, batch_num / 2500)
      elif anneal_type == "sigmoid":
          return float(1/(1+np.exp(-0.0025*(batch_num-2500))))
      elif anneal_type == "constant":
          return 1.0
      elif anneal_type == "reverse_sigmoid":
          return float(1/(1+np.exp(0.0025*(batch_num-2500))))
      else:
          return 0.01
  \<close>
\<close>

definition schedule :: "int \<Rightarrow> string \<Rightarrow> real" where
  "schedule batch_num anneal_type =
     (if anneal_type = ''linear'' then min 1 (real_of_int batch_num / 2500)
      else if anneal_type = ''sigmoid'' then
        1 / (1 + exp (- (25 / 10000) * real_of_int (batch_num - 2500)))
      else if anneal_type = ''constant'' then 1
      else if anneal_type = ''reverse_sigmoid'' then
        1 / (1 + exp ((25 / 10000) * real_of_int (batch_num - 2500)))
      else 1 / 100)"

section \<open>one_hot and log_standard_categorical\<close>



text \<open>
  \<open>torch.nn.functional.softmax\<close> along the last dimension, and \<open>torch.log\<close>. The
  logarithm of a positive number is a real; at zero torch gives \<open>-inf\<close> and below zero
  \<open>nan\<close>, which are not reals: \<open>None\<close>.
\<close>

definition softmax :: "real list \<Rightarrow> real list" where
  "softmax xs = map (\<lambda>x. exp x / sum_list (map exp xs)) xs"

definition torch_log :: "real \<Rightarrow> real option" where
  "torch_log x = (if 0 < x then Some (ln x) else None)"

definition ones_like :: "real list \<Rightarrow> real list" where
  "ones_like p = replicate (length p) 1"

text \<open>
  \<^verbatim>\<open>
  def log_standard_categorical(p):
      prior = torch.nn.functional.softmax(torch.ones_like(p).float(), dim=-1)
      prior.requires_grad = False
      cross_entropy = torch.sum(p.float() * torch.log(prior + 1e-8), dim=-1)
      return cross_entropy
  \<close>
  \<open>p\<close> is a vector (the last dimension). A sum with a term that is infinite or NaN is
  not a real, so the result is a real exactly when every logarithm is.
\<close>

definition log_standard_categorical :: "real list \<Rightarrow> real option" where
  "log_standard_categorical p =
     (let prior = softmax (ones_like p)
      in map_option (\<lambda>logs. sum_list (map2 (*) p logs))
           (those (map (\<lambda>q. torch_log (q + 1 / 10 ^ 8)) prior)))"

text \<open>A one-hot vector: one entry is 1, every other entry is 0.\<close>

definition is_one_hot :: "real list \<Rightarrow> bool" where
  "is_one_hot p = (\<exists>i \<in> set [0..<length p]. p = (replicate (length p) 0)[i := 1])"

section \<open>interpolate\<close>

text \<open>
  \<open>numpy.linspace(start, stop, num)\<close> with its default \<open>endpoint=True\<close>: \<open>num\<close> samples,
  the \<open>i\<close>-th at \<open>i * step + start\<close> with \<open>step = (stop - start) / (num - 1)\<close>, and the
  last one set to \<open>stop\<close>. A negative \<open>num\<close> is refused; with one sample there is no step
  and the sample is \<open>start\<close>.
\<close>

definition linspace :: "real \<Rightarrow> real \<Rightarrow> int \<Rightarrow> error + real list" where
  "linspace start stop num =
     (if num < 0 then Inl ValueError
      else
        let n = nat num;
            divisor = num - 1;
            delta = stop - start;
            y = map (\<lambda>i. if 0 < divisor then real i * (delta / real_of_int divisor) + start
                         else real i * delta + start) [0..<n]
        in Inr (if 1 < n then y[n - 1 := stop] else y))"

text \<open>
  \<^verbatim>\<open>
  def interpolate(start, end, steps):
      interpolation = np.zeros((start.shape[0], steps + 2))
      for dim, (s,e) in enumerate(zip(start,end)):
          interpolation[dim] = np.linspace(s,e,steps+2)
      return interpolation.T
  \<close>
  The loop runs over the pairs of \<open>zip\<close>, which stops at the shorter vector; the rows
  it does not reach stay zero. \<open>T\<close> is the transpose of an array with \<open>num\<close> columns.
\<close>

fun interpolate_loop ::
  "real list list \<Rightarrow> nat \<Rightarrow> (real \<times> real) list \<Rightarrow> int \<Rightarrow> error + real list list" where
  "interpolate_loop interpolation row_ix [] num = Inr interpolation"
| "interpolate_loop interpolation row_ix ((s, e) # rest) num =
     (case linspace s e num of
        Inl err \<Rightarrow> Inl err
      | Inr row \<Rightarrow> interpolate_loop (interpolation[row_ix := row]) (Suc row_ix) rest num)"

definition T :: "nat \<Rightarrow> 'a list list \<Rightarrow> 'a list list" where
  "T num rows = map (\<lambda>j. map (\<lambda>row. row ! j) rows) [0..<num]"

definition interpolate :: "real list \<Rightarrow> real list \<Rightarrow> int \<Rightarrow> error + real list list" where
  "interpolate start endp steps =
     (if steps + 2 < 0 then Inl ValueError
      else
        let num = nat (steps + 2);
            zeros = replicate (length start) (replicate num 0)
        in case interpolate_loop zeros 0 (zip start endp) (steps + 2) of
             Inl err \<Rightarrow> Inl err
           | Inr interpolation \<Rightarrow> Inr (T num interpolation))"

text \<open>The samples of \<open>linspace\<close> in closed form, for at least two samples.\<close>

definition spaced :: "real \<Rightarrow> real \<Rightarrow> int \<Rightarrow> nat \<Rightarrow> real" where
  "spaced s e steps i = s + real i * ((e - s) / real_of_int (steps + 1))"

section \<open>compute_bow\<close>

text \<open>
  The library functions \<open>compute_bow\<close> calls, on the tensors it passes them.
  \<^item> \<open>allennlp.nn.util.get_text_field_mask\<close> on a two-dimensional tensor of token
    indices is \<^verbatim>\<open>(token_tensor != 0).long()\<close>: index 0 is padding.
  \<^item> \<open>Tensor.byte()\<close> converts to unsigned 8-bit integers, and \<open>1 - mask\<close> is
    computed in that type.
  \<^item> \<open>torch.masked_select\<close> with a byte mask refuses a mask entry other than 0 and 1
    (\<open>1 - mask\<close> is 255 where the mask was 2); it broadcasts the tensor and the mask to
    one shape and returns the entries at which the mask is 1, in order.
  \<^item> \<open>torch.bincount\<close> refuses negative entries; it returns the number of occurrences
    of each value from 0 up to the largest one, and at least \<open>minlength\<close> of them.
  \<^item> \<open>Tensor.view(1, -1)\<close> makes the vector the one row of a matrix, also when it is empty:
    the row is the list itself.
  \<^item> \<open>torch.cat\<close> refuses an empty list and rows of different lengths.
\<close>

definition get_text_field_mask :: "int list list \<Rightarrow> int list list" where
  "get_text_field_mask token_tensor = map (map (\<lambda>t. if t \<noteq> 0 then 1 else 0)) token_tensor"

definition byte :: "int \<Rightarrow> 8 word" where
  "byte x = word_of_int x"

definition masked_select :: "'a list \<Rightarrow> 8 word list \<Rightarrow> error + 'a list" where
  "masked_select xs msk =
     (if \<exists>m \<in> set msk. m \<noteq> 0 \<and> m \<noteq> 1 then Inl RuntimeError
      else if length xs = length msk then Inr (map fst (filter (\<lambda>(x, m). m \<noteq> 0) (zip xs msk)))
      else if length msk = 1 then Inr (if hd msk \<noteq> 0 then xs else [])
      else if length xs = 1 then Inr (replicate (length (filter (\<lambda>m. m \<noteq> 0) msk)) (hd xs))
      else Inl RuntimeError)"

definition bincount :: "int list \<Rightarrow> int \<Rightarrow> error + nat list" where
  "bincount input minlength =
     (if minlength < 0 \<or> (\<exists>x \<in> set input. x < 0) then Inl RuntimeError
      else
        let bins = max (nat minlength) (nat (foldr max (map (\<lambda>x. x + 1) input) 0))
        in Inr (map (\<lambda>v. count_list input (int v)) [0..<bins]))"

definition cat :: "'a list list \<Rightarrow> error + 'a list list" where
  "cat tensors =
     (case tensors of
        [] \<Rightarrow> Inl RuntimeError
      | t # ts \<Rightarrow> if \<forall>u \<in> set ts. length u = length t then Inr tensors else Inl RuntimeError)"

text \<open>
  \<^verbatim>\<open>
  def compute_bow(tokens, vocab_size, stopword_indicator=None):
      bow_vectors = []
      mask = get_text_field_mask({"tokens": tokens})
      for document, doc_mask in zip(tokens, mask):
          document = torch.masked_select(document, doc_mask.byte())
          vec = torch.bincount(document, minlength=vocab_size).float()
          if stopword_indicator is not None:
              vec = torch.masked_select(vec, 1 - stopword_indicator.to(vec).byte())
          vec = vec.view(1, -1)
          bow_vectors.append(vec)
      return torch.cat(bow_vectors, 0)
  \<close>
  \<open>tokens\<close> is the batch, one row of token indices per document. The stopword indicator
  is the row of its \<open>1 x VOCAB_SIZE\<close> tensor. \<open>bow_vector\<close> is the body of the loop.
\<close>

definition bow_vector :: "int list \<Rightarrow> int list \<Rightarrow> int \<Rightarrow> int list option \<Rightarrow> error + real list" where
  "bow_vector document doc_mask vocab_size stopword_indicator =
     (case masked_select document (map byte doc_mask) of
        Inl e \<Rightarrow> Inl e
      | Inr document' \<Rightarrow>
          (case bincount document' vocab_size of
             Inl e \<Rightarrow> Inl e
           | Inr counts \<Rightarrow>
               (case stopword_indicator of
                  None \<Rightarrow> Inr (map real counts)
                | Some stop \<Rightarrow>
                    masked_select (map real counts) (map (\<lambda>x. 1 - byte x) stop))))"

fun compute_bow_loop ::
  "real list list \<Rightarrow> (int list \<times> int list) list \<Rightarrow> int \<Rightarrow> int list option \<Rightarrow> error + real list list" where
  "compute_bow_loop bow_vectors [] vocab_size stopword_indicator = Inr bow_vectors"
| "compute_bow_loop bow_vectors ((document, doc_mask) # rest) vocab_size stopword_indicator =
     (case bow_vector document doc_mask vocab_size stopword_indicator of
        Inl e \<Rightarrow> Inl e
      | Inr vec \<Rightarrow> compute_bow_loop (bow_vectors @ [vec]) rest vocab_size stopword_indicator)"

definition compute_bow :: "int list list \<Rightarrow> int \<Rightarrow> int list option \<Rightarrow> error + real list list" where
  "compute_bow tokens vocab_size stopword_indicator =
     (let msk = get_text_field_mask tokens
      in case compute_bow_loop [] (zip tokens msk) vocab_size stopword_indicator of
           Inl e \<Rightarrow> Inl e
         | Inr bow_vectors \<Rightarrow> cat bow_vectors)"

text \<open>
  The number of unmasked occurrences of the vocabulary index \<open>v\<close> in a document, and the
  vocabulary indices that a stopword indicator does not flag.
\<close>

definition unmasked_count :: "int list \<Rightarrow> int list \<Rightarrow> nat \<Rightarrow> nat" where
  "unmasked_count document doc_mask v =
     length (filter (\<lambda>(t, m). m \<noteq> 0 \<and> t = int v) (zip document doc_mask))"

definition kept :: "int list \<Rightarrow> nat list" where
  "kept stop = filter (\<lambda>v. byte (stop ! v) = 0) [0..<length stop]"

text \<open>The count vector of one document: entry \<open>v\<close> is the number of unmasked occurrences of \<open>v\<close>.\<close>

definition count_vector :: "int list \<Rightarrow> int \<Rightarrow> real list" where
  "count_vector document vocab_size =
     map (\<lambda>v. real (unmasked_count document (map (\<lambda>t. if t \<noteq> 0 then 1 else 0) document) v))
       [0..<nat vocab_size]"

section \<open>split_instances\<close>

text \<open>
  \<open>is_labeled\<close> and \<open>label\<close> are \<open>torch.IntTensor\<close>s, vectors of 32-bit integers, on
  which \<open>.int()\<close> changes nothing. \<open>Tensor.nonzero()\<close> lists the positions of the
  non-zero entries, and \<open>squeeze()\<close> turns a list of exactly one position into a
  zero-dimensional tensor. Indexing the first dimension of a tensor with a
  zero-dimensional index gives one entry (a tensor of one dimension fewer), indexing
  with a vector of positions gives the entries at these positions; a position outside
  the tensor raises \<open>IndexError\<close>.
\<close>

datatype index = Scalar nat | Vector "nat list"

datatype 'a picked = One 'a | Many "'a list"

definition nonzero :: "'a::zero list \<Rightarrow> nat list" where
  "nonzero xs = filter (\<lambda>i. xs ! i \<noteq> 0) [0..<length xs]"

definition eq_zero :: "32 word list \<Rightarrow> 8 word list" where
  "eq_zero xs = map (\<lambda>x. if x = 0 then 1 else 0) xs"

definition squeeze :: "nat list \<Rightarrow> index" where
  "squeeze ixs = (case ixs of [i] \<Rightarrow> Scalar i | _ \<Rightarrow> Vector ixs)"

fun nelement :: "index \<Rightarrow> nat" where
  "nelement (Scalar i) = 1"
| "nelement (Vector ixs) = length ixs"

fun index_select :: "'a list \<Rightarrow> index \<Rightarrow> error + 'a picked" where
  "index_select t (Scalar i) = (if i < length t then Inr (One (t ! i)) else Inl IndexError)"
| "index_select t (Vector ixs) =
     (if \<forall>i \<in> set ixs. i < length t then Inr (Many (map ((!) t) ixs)) else Inl IndexError)"

text \<open>
  \<^verbatim>\<open>if len(x.shape) == 1: x = x.unsqueeze(0)\<close> on rows picked from a two-dimensional
  tensor, and \<^verbatim>\<open>if len(x.shape) == 0: x = x.unsqueeze(0)\<close> on entries picked from
  a vector: a single entry becomes a batch of one, a batch is left as it is.
\<close>

fun unsqueeze_single :: "'a picked \<Rightarrow> 'a list" where
  "unsqueeze_single (One x) = [x]"
| "unsqueeze_single (Many xs) = xs"

definition getitem :: "('k \<rightharpoonup> 'v) \<Rightarrow> 'k \<Rightarrow> error + 'v" where
  "getitem d k = (case d k of None \<Rightarrow> Inl KeyError | Some v \<Rightarrow> Inr v)"

text \<open>
  The two results are dictionaries with the keys \<open>"tokens"\<close>, \<open>"label"\<close> and \<open>"targets"\<close>,
  each present or absent; the values at \<open>"tokens"\<close> and \<open>"targets"\<close> are dictionaries
  with the one key \<open>"tokens"\<close>, modelled by the tensor stored there.
\<close>

record instances =
  inst_tokens :: "int list list option"
  inst_label :: "32 word list option"
  inst_targets :: "int list list option"

definition no_instances :: instances where
  "no_instances = \<lparr>inst_tokens = None, inst_label = None, inst_targets = None\<rparr>"

text \<open>
  \<^verbatim>\<open>
  def split_instances(tokens, is_labeled, targets=None, label=None):
      labeled_instances = {}
      unlabeled_instances = {}
      labeled_indices = is_labeled.int().nonzero().squeeze()
      if labeled_indices.nelement() > 0:
          labeled_tokens = tokens['tokens'][labeled_indices, :]
          labeled_labels = label[labeled_indices]
          if len(labeled_tokens.shape) == 1:
              labeled_tokens = labeled_tokens.unsqueeze(0)
          if len(labeled_labels.shape) == 0:
              labeled_labels = labeled_labels.unsqueeze(0)
          labeled_instances["tokens"] = {"tokens": labeled_tokens}
          labeled_instances["label"] = labeled_labels
          if targets is not None:
              labeled_targets = targets['tokens'][labeled_indices, :]
              if len(labeled_targets.shape) == 1:
                  labeled_targets = labeled_targets.unsqueeze(0)
              labeled_instances["targets"] = {"tokens": labeled_targets}
      unlabeled_indices = (is_labeled.int() == 0).nonzero().squeeze()
      if unlabeled_indices.nelement() > 0:
          unlabeled_tokens = tokens['tokens'][unlabeled_indices, :]
          if len(unlabeled_tokens.shape) == 1:
              unlabeled_tokens = unlabeled_tokens.unsqueeze(0)
          unlabeled_instances["tokens"] = {"tokens": unlabeled_tokens}
          if targets is not None:
              unlabeled_targets = targets['tokens'][unlabeled_indices, :]
              if len(unlabeled_targets.shape) == 1:
                  unlabeled_targets = unlabeled_targets.unsqueeze(0)
              unlabeled_instances["targets"] = {"tokens": unlabeled_targets}
      return labeled_instances, unlabeled_instances
  \<close>
  \<open>select_targets\<close> is the block under \<^verbatim>\<open>if targets is not None\<close>, the same in both
  halves; \<open>label[labeled_indices]\<close> on the default \<open>label=None\<close> raises \<open>TypeError\<close>.
\<close>

definition select_targets ::
  "(string \<rightharpoonup> int list list) option \<Rightarrow> index \<Rightarrow> instances \<Rightarrow> error + instances" where
  "select_targets targets indices inst =
     (case targets of
        None \<Rightarrow> Inr inst
      | Some tg \<Rightarrow>
          (case getitem tg ''tokens'' of
             Inl e \<Rightarrow> Inl e
           | Inr target_tensor \<Rightarrow>
               (case index_select target_tensor indices of
                  Inl e \<Rightarrow> Inl e
                | Inr picked_targets \<Rightarrow>
                    Inr (inst\<lparr>inst_targets := Some (unsqueeze_single picked_targets)\<rparr>))))"

definition labeled_block ::
  "(string \<rightharpoonup> int list list) \<Rightarrow> (string \<rightharpoonup> int list list) option \<Rightarrow> 32 word list option
   \<Rightarrow> index \<Rightarrow> error + instances" where
  "labeled_block tokens targets label labeled_indices =
     (case getitem tokens ''tokens'' of
        Inl e \<Rightarrow> Inl e
      | Inr token_tensor \<Rightarrow>
          (case index_select token_tensor labeled_indices of
             Inl e \<Rightarrow> Inl e
           | Inr labeled_tokens \<Rightarrow>
               (case label of
                  None \<Rightarrow> Inl TypeError
                | Some label_tensor \<Rightarrow>
                    (case index_select label_tensor labeled_indices of
                       Inl e \<Rightarrow> Inl e
                     | Inr labeled_labels \<Rightarrow>
                         select_targets targets labeled_indices
                           \<lparr>inst_tokens = Some (unsqueeze_single labeled_tokens),
                            inst_label = Some (unsqueeze_single labeled_labels),
                            inst_targets = None\<rparr>))))"

definition unlabeled_block ::
  "(string \<rightharpoonup> int list list) \<Rightarrow> (string \<rightharpoonup> int list list) option \<Rightarrow> index
   \<Rightarrow> error + instances" where
  "unlabeled_block tokens targets unlabeled_indices =
     (case getitem tokens ''tokens'' of
        Inl e \<Rightarrow> Inl e
      | Inr token_tensor \<Rightarrow>
          (case index_select token_tensor unlabeled_indices of
             Inl e \<Rightarrow> Inl e
           | Inr unlabeled_tokens \<Rightarrow>
               select_targets targets unlabeled_indices
                 \<lparr>inst_tokens = Some (unsqueeze_single unlabeled_tokens),
                  inst_label = None,
                  inst_targets = None\<rparr>))"

definition split_instances ::
  "(string \<rightharpoonup> int list list) \<Rightarrow> 32 word list \<Rightarrow> (string \<rightharpoonup> int list list) option
   \<Rightarrow> 32 word list option \<Rightarrow> error + instances \<times> instances" where
  "split_instances tokens is_labeled targets label =
     (let labeled_indices = squeeze (nonzero is_labeled)
      in case (if nelement labeled_indices > 0
               then labeled_block tokens targets label labeled_indices
               else Inr no_instances) of
           Inl e \<Rightarrow> Inl e
         | Inr labeled_instances \<Rightarrow>
             (let unlabeled_indices = squeeze (nonzero (eq_zero is_labeled))
              in case (if nelement unlabeled_indices > 0
                       then unlabeled_block tokens targets unlabeled_indices
                       else Inr no_instances) of
                   Inl e \<Rightarrow> Inl e
                 | Inr unlabeled_instances \<Rightarrow> Inr (labeled_instances, unlabeled_instances)))"

text \<open>
  The positions of the labeled and of the unlabeled instances of a batch, and the tensor
  under \<open>targets['tokens']\<close> when targets are given.
\<close>

definition labeled_ids :: "32 word list \<Rightarrow> nat list" where
  "labeled_ids is_labeled = filter (\<lambda>i. is_labeled ! i \<noteq> 0) [0..<length is_labeled]"

definition unlabeled_ids :: "32 word list \<Rightarrow> nat list" where
  "unlabeled_ids is_labeled = filter (\<lambda>i. is_labeled ! i = 0) [0..<length is_labeled]"

definition target_rows :: "(string \<rightharpoonup> int list list) option \<Rightarrow> int list list option" where
  "target_rows targets = (case targets of None \<Rightarrow> None | Some tg \<Rightarrow> tg ''tokens'')"

definition rows_at :: "'a list \<Rightarrow> nat list \<Rightarrow> 'a list" where
  "rows_at t ixs = map ((!) t) ixs"

section \<open>The state outside the arguments\<close>

text \<open>
  Three things outside their arguments are touched by functions of the module: the file
  system (\<open>open\<close>), the global random generator of numpy (\<open>np.random.randint\<close>) and the
  global random generator of torch (\<open>torch.multinomial\<close>). The file system maps a path
  to the content of the JSON file there, a dictionary from tokens to counts; \<open>opened\<close>
  records the successful calls of \<open>open\<close>, in order. The state of a generator is what
  determines its future outputs: it is modelled by the sequence of raw numbers it will
  produce next, and drawing removes the first of them.
\<close>

record world =
  files :: "string \<rightharpoonup> (string \<rightharpoonup> real)"
  opened :: "string list"
  numpy_random :: "nat list"
  torch_random :: "nat list"

section \<open>compute_background_log_frequency\<close>

text \<open>
  An \<open>allennlp\<close> \<open>Vocabulary\<close> holds, for each namespace, the tokens by index;
  \<open>get_vocab_size\<close> is their number and \<open>get_token_from_index\<close> a dictionary lookup.
\<close>

type_synonym vocabulary = "string \<Rightarrow> string list"

definition get_vocab_size :: "vocabulary \<Rightarrow> string \<Rightarrow> nat" where
  "get_vocab_size vocab namespace = length (vocab namespace)"

definition get_token_from_index :: "vocabulary \<Rightarrow> nat \<Rightarrow> string \<Rightarrow> error + string" where
  "get_token_from_index vocab i namespace =
     (if i < length (vocab namespace) then Inr (vocab namespace ! i) else Inl KeyError)"

definition json_load_open :: "world \<Rightarrow> string \<Rightarrow> (error + (string \<rightharpoonup> real)) \<times> world" where
  "json_load_open w path =
     (case files w path of
        None \<Rightarrow> (Inl FileNotFoundError, w)
      | Some content \<Rightarrow> (Inr content, w\<lparr>opened := opened w @ [path]\<rparr>))"

text \<open>
  \<^verbatim>\<open>
  def compute_background_log_frequency(precomputed_word_counts, vocab, vocab_namespace):
      precomputed_word_counts = json.load(open(precomputed_word_counts, "r"))
      log_term_frequency = torch.FloatTensor(vocab.get_vocab_size(vocab_namespace))
      for i in range(vocab.get_vocab_size(vocab_namespace)):
          token = vocab.get_token_from_index(i, vocab_namespace)
          if token in ("@@UNKNOWN@@", "@@PADDING@@", '@@start@@', '@@end@@') or token not in precomputed_word_counts:
              log_term_frequency[i] = 1e-12
          elif token in precomputed_word_counts:
              log_term_frequency[i] = precomputed_word_counts[token]
      log_term_frequency = torch.log(log_term_frequency)
      return log_term_frequency
  \<close>
  \<open>torch.FloatTensor(n)\<close> allocates \<open>n\<close> entries without initialising them; the model
  starts from zeros, and the loop is written over the list of indices \<open>range(n)\<close>.
\<close>

definition special_tokens :: "string list" where
  "special_tokens = [''@@UNKNOWN@@'', ''@@PADDING@@'', ''@@start@@'', ''@@end@@'']"

fun log_term_frequency_loop ::
  "vocabulary \<Rightarrow> string \<Rightarrow> (string \<rightharpoonup> real) \<Rightarrow> nat list \<Rightarrow> real list \<Rightarrow> error + real list" where
  "log_term_frequency_loop vocab namespace word_counts [] log_term_frequency =
     Inr log_term_frequency"
| "log_term_frequency_loop vocab namespace word_counts (i # rest) log_term_frequency =
     (case get_token_from_index vocab i namespace of
        Inl e \<Rightarrow> Inl e
      | Inr token \<Rightarrow>
          if token \<in> set special_tokens \<or> token \<notin> dom word_counts then
            log_term_frequency_loop vocab namespace word_counts rest
              (log_term_frequency[i := 1 / 10 ^ 12])
          else if token \<in> dom word_counts then
            (case getitem word_counts token of
               Inl e \<Rightarrow> Inl e
             | Inr c \<Rightarrow>
                 log_term_frequency_loop vocab namespace word_counts rest
                   (log_term_frequency[i := c]))
          else log_term_frequency_loop vocab namespace word_counts rest log_term_frequency)"

definition compute_background_log_frequency ::
  "world \<Rightarrow> string \<Rightarrow> vocabulary \<Rightarrow> string \<Rightarrow> (error + real option list) \<times> world" where
  "compute_background_log_frequency w precomputed_word_counts vocab vocab_namespace =
     (case json_load_open w precomputed_word_counts of
        (Inl e, w') \<Rightarrow> (Inl e, w')
      | (Inr word_counts, w') \<Rightarrow>
          (let n = get_vocab_size vocab vocab_namespace
           in case log_term_frequency_loop vocab vocab_namespace word_counts [0..<n]
                     (replicate n 0) of
                Inl e \<Rightarrow> (Inl e, w')
              | Inr log_term_frequency \<Rightarrow> (Inr (map torch_log log_term_frequency), w')))"

text \<open>The value stored for a token before the logarithm is taken.\<close>

definition term_frequency :: "(string \<rightharpoonup> real) \<Rightarrow> string \<Rightarrow> real" where
  "term_frequency word_counts token =
     (case word_counts token of
        None \<Rightarrow> 1 / 10 ^ 12
      | Some c \<Rightarrow> if token \<in> set special_tokens then 1 / 10 ^ 12 else c)"

section \<open>check_dispersion\<close>

text \<open>
  \<open>np.random.randint(low, high)\<close> draws an integer from \<open>low\<close> up to but excluding \<open>high\<close>
  from the global generator (\<open>low < high\<close> at every call in this module). With no draw
  left in the modelled state the outcome is not known: \<open>None\<close>.
\<close>

definition randint :: "int \<Rightarrow> int \<Rightarrow> nat list \<Rightarrow> (int \<times> nat list) option" where
  "randint low high g =
     (case g of [] \<Rightarrow> None | r # g' \<Rightarrow> Some (low + int r mod (high - low), g'))"

text \<open>
  \<^verbatim>\<open>
  def check_dispersion(vecs, num_sam=10):
      vecs = vecs.unsqueeze(0)
      if vecs.size(1) <= 2:
          return torch.zeros(1)
      cos_sim = 0
      for i in range(num_sam):
          idx1 = np.random.randint(0, vecs.size(1) - 1)
          while True:
              idx2 = np.random.randint(0, vecs.size(1) - 1)
              if idx1 != idx2:
                  break
          cos_sim += np.cos(vecs[0][idx1].detach().cpu().numpy(), vecs[0][idx2].detach().cpu().numpy())
      return cos_sim / num_sam
  \<close>
  \<open>vecs\<close> is a \<open>[batch_sz, lat_dim]\<close> tensor in main memory; after \<open>unsqueeze(0)\<close> its
  \<open>size(1)\<close> is the number of rows. \<open>draw_idx2\<close> is the \<open>while True\<close> loop: it ends when a
  draw differs from \<open>idx1\<close>, and has no result when the draws run out first.

  The second positional argument of the numpy function \<open>np.cos\<close> is its output array,
  and \<open>.detach().cpu().numpy()\<close> shares the memory of the tensor: the call writes the
  cosines of row \<open>idx1\<close> into row \<open>idx2\<close> of \<open>vecs\<close> and returns that row. So the model
  returns the content of \<open>vecs\<close> after the call, too. \<open>cos_sim\<close> is the integer 0
  (\<open>None\<close>) until the first array is added to it.
\<close>

datatype pyvalue = Tensor "real list" | NdArray "real list" | PyFloat real

function draw_idx2 :: "int \<Rightarrow> int \<Rightarrow> nat list \<Rightarrow> (int \<times> nat list) option" where
  "draw_idx2 high idx1 g =
     (case randint 0 high g of
        None \<Rightarrow> None
      | Some (idx2, g') \<Rightarrow> if idx1 \<noteq> idx2 then Some (idx2, g') else draw_idx2 high idx1 g')"
  by pat_completeness auto

termination
  by (relation "measure (\<lambda>(high, idx1, g). length g)")
    (auto simp: randint_def split: list.splits)

fun dispersion_loop ::
  "nat \<Rightarrow> int \<Rightarrow> real list option \<Rightarrow> real list list \<Rightarrow> nat list
   \<Rightarrow> (real list option \<times> real list list \<times> nat list) option" where
  "dispersion_loop 0 high cos_sim vecs g = Some (cos_sim, vecs, g)"
| "dispersion_loop (Suc k) high cos_sim vecs g =
     (case randint 0 high g of
        None \<Rightarrow> None
      | Some (idx1, g1) \<Rightarrow>
          (case draw_idx2 high idx1 g1 of
             None \<Rightarrow> None
           | Some (idx2, g2) \<Rightarrow>
               (let out = map cos (vecs ! nat idx1);
                    vecs' = vecs[nat idx2 := out];
                    cos_sim' = (case cos_sim of
                                  None \<Rightarrow> map (\<lambda>x. 0 + x) out
                                | Some c \<Rightarrow> map2 (+) c out)
                in dispersion_loop k high (Some cos_sim') vecs' g2)))"

definition true_divide :: "real list option \<Rightarrow> int \<Rightarrow> error + pyvalue" where
  "true_divide cos_sim num_sam =
     (case cos_sim of
        None \<Rightarrow> if num_sam = 0 then Inl ZeroDivisionError
                else Inr (PyFloat (0 / real_of_int num_sam))
      | Some c \<Rightarrow> Inr (NdArray (map (\<lambda>x. x / real_of_int num_sam) c)))"

definition check_dispersion ::
  "world \<Rightarrow> real list list \<Rightarrow> int \<Rightarrow> ((error + pyvalue) \<times> real list list \<times> world) option" where
  "check_dispersion w vecs num_sam =
     (if length vecs \<le> 2 then Some (Inr (Tensor [0]), vecs, w)
      else
        case dispersion_loop (nat num_sam) (int (length vecs) - 1) None vecs (numpy_random w) of
          None \<Rightarrow> None
        | Some (cos_sim, vecs', g) \<Rightarrow>
            Some (true_divide cos_sim num_sam, vecs', w\<lparr>numpy_random := g\<rparr>))"

section \<open>sample\<close>

text \<open>
  \<^verbatim>\<open>
  def sample(dist, strategy='greedy'):
      if strategy == 'greedy':
          dist = torch.nn.functional.softmax(dist, dim=-1)
          sample = torch.multinomial(dist, 1)
      sample = sample.squeeze()
      return sample
  \<close>
  \<open>torch.multinomial(probabilities, num_samples)\<close> draws indices with torch's global
  generator, by an algorithm that is the library's: it is a parameter of the model,
  taking the state of the generator and returning the drawn indices, or an error, with
  the new state. With another strategy the local variable \<open>sample\<close> is read before any
  assignment.
\<close>

type_synonym sampler = "nat list \<Rightarrow> real list \<Rightarrow> nat \<Rightarrow> (error + nat list) \<times> nat list"

definition sample :: "sampler \<Rightarrow> world \<Rightarrow> real list \<Rightarrow> string \<Rightarrow> (error + index) \<times> world" where
  "sample multinomial w distr strategy =
     (if strategy = ''greedy'' then
        (let distr' = softmax distr
         in case multinomial (torch_random w) distr' 1 of
              (Inl e, g) \<Rightarrow> (Inl e, w\<lparr>torch_random := g\<rparr>)
            | (Inr drawn, g) \<Rightarrow> (Inr (squeeze drawn), w\<lparr>torch_random := g\<rparr>))
      else (Inl UnboundLocalError, w))"

section \<open>Calls of the module against the state\<close>






chapter \<open>Properties\<close>

section \<open>Properties of schedule\<close>

lemma schedule_linear_mono:
  assumes "a \<le> b"
  shows "schedule a ''linear'' \<le> schedule b ''linear''"
proof -
  have "real_of_int a / 2500 \<le> real_of_int b / 2500"
    using assms by (simp add: divide_right_mono)
  then show ?thesis
    unfolding schedule_def by (simp add: min_le_iff_disj)
qed

lemma schedule_sigmoid_mono:
  assumes "a \<le> b"
  shows "schedule a ''sigmoid'' \<le> schedule b ''sigmoid''"
proof -
  let ?f = "\<lambda>n::int. exp (- (25 / 10000) * real_of_int (n - 2500))"
  have "?f b \<le> ?f a"
    using assms by simp
  moreover have "0 < 1 + ?f b"
    by (simp add: add_pos_pos)
  ultimately have "1 / (1 + ?f a) \<le> 1 / (1 + ?f b)"
    by (intro divide_left_mono) (simp_all add: add_pos_pos)
  then show ?thesis
    unfolding schedule_def by simp
qed

lemma schedule_reverse_sigmoid_anti:
  assumes "a \<le> b"
  shows "schedule b ''reverse_sigmoid'' \<le> schedule a ''reverse_sigmoid''"
proof -
  let ?f = "\<lambda>n::int. exp ((25 / 10000) * real_of_int (n - 2500))"
  have "?f a \<le> ?f b"
    using assms by simp
  moreover have "0 < 1 + ?f a"
    by (simp add: add_pos_pos)
  ultimately have "1 / (1 + ?f b) \<le> 1 / (1 + ?f a)"
    by (intro divide_left_mono) (simp_all add: add_pos_pos)
  then show ?thesis
    unfolding schedule_def by simp
qed

lemma schedule_constant: "schedule a ''constant'' = 1"
  by (simp add: schedule_def)

text \<open>
  C3. The annealing weight is monotone in the batch number: from batch \<open>a\<close> to a later
  batch \<open>b\<close> the linear and the sigmoid schedules do not decrease, the reverse sigmoid
  schedule does not increase, and the constant schedule has one value, the same at
  every batch.
\<close>

theorem schedule_monotonic:
  assumes "a \<le> b"
  shows "schedule a ''linear'' \<le> schedule b ''linear''
       \<and> schedule a ''sigmoid'' \<le> schedule b ''sigmoid''
       \<and> schedule a ''reverse_sigmoid'' \<ge> schedule b ''reverse_sigmoid''
       \<and> schedule a ''constant'' = schedule b ''constant''"
  using assms schedule_linear_mono schedule_sigmoid_mono schedule_reverse_sigmoid_anti
  by (simp add: schedule_constant)

theorem schedule_monotonic_witness:
  "(0::int) \<le> 5000
   \<and> schedule 0 ''linear'' \<le> schedule 5000 ''linear''
   \<and> schedule 0 ''sigmoid'' \<le> schedule 5000 ''sigmoid''
   \<and> schedule 0 ''reverse_sigmoid'' \<ge> schedule 5000 ''reverse_sigmoid''
   \<and> schedule 0 ''constant'' = schedule 5000 ''constant''"
proof -
  have h: "(0::int) \<le> 5000" by simp
  show ?thesis using schedule_monotonic [OF h] by simp
qed

section \<open>Properties of log_standard_categorical\<close>

lemma softmax_ones:
  assumes "0 < k"
  shows "softmax (replicate k 1) = replicate k (1 / real k)"
proof -
  have "sum_list (map exp (replicate k (1::real))) = real k * exp 1"
    by (simp add: sum_list_replicate)
  then show ?thesis
    using assms by (simp add: softmax_def)
qed

lemma those_map_Some: "those (map Some xs) = Some xs"
  by (induction xs) simp_all

lemma sum_list_map2_replicate:
  "length p = k \<Longrightarrow> sum_list (map2 (*) p (replicate k (c::real))) = sum_list p * c"
proof (induction p arbitrary: k)
  case Nil
  then show ?case by simp
next
  case (Cons x p)
  then obtain k' where k: "k = Suc k'" by (cases k) auto
  with Cons show ?case by (simp add: algebra_simps)
qed

lemma sum_list_unit_vector:
  "i < k \<Longrightarrow> sum_list ((replicate k (0::real))[i := 1]) = 1"
proof (induction k arbitrary: i)
  case 0
  then show ?case by simp
next
  case (Suc k)
  then show ?case by (cases i) (simp_all add: sum_list_replicate)
qed

lemma is_one_hot_sum:
  assumes "is_one_hot p"
  shows "0 < length p" and "sum_list p = 1"
proof -
  from assms obtain i where i: "i < length p" and p: "p = (replicate (length p) 0)[i := 1]"
    unfolding is_one_hot_def by auto
  from i show "0 < length p" by auto
  have "sum_list ((replicate (length p) (0::real))[i := 1]) = 1"
    using i by (rule sum_list_unit_vector)
  with p show "sum_list p = 1" by simp
qed

text \<open>
  C7. For a one-hot vector \<open>p\<close> with \<open>k\<close> categories, \<open>log_standard_categorical p\<close> is
  \<open>log (1/k + 1e-8)\<close>: the prior, the softmax of a vector of ones, is uniform with
  weight \<open>1/k\<close>, and the one-hot vector selects one of the \<open>k\<close> equal logarithms.
\<close>

theorem log_standard_categorical_one_hot:
  assumes "is_one_hot p"
  shows "softmax (ones_like p) = replicate (length p) (1 / real (length p))
       \<and> log_standard_categorical p = Some (ln (1 / real (length p) + 1 / 10 ^ 8))"
proof -
  let ?k = "length p"
  let ?c = "1 / real ?k + 1 / 10 ^ 8"
  have k: "0 < ?k" and s: "sum_list p = 1"
    using assms by (rule is_one_hot_sum)+
  have prior: "softmax (ones_like p) = replicate ?k (1 / real ?k)"
    using k by (simp add: ones_like_def softmax_ones)
  have "0 < 1 / real ?k"
    using k by simp
  then have pos: "0 < ?c"
    by (rule add_pos_pos) simp
  then have "map (\<lambda>q. torch_log (q + 1 / 10 ^ 8)) (replicate ?k (1 / real ?k))
           = map Some (replicate ?k (ln ?c))"
    by (simp add: torch_log_def)
  then have "log_standard_categorical p
           = Some (sum_list (map2 (*) p (replicate ?k (ln ?c))))"
    unfolding log_standard_categorical_def Let_def prior
    by (simp only: those_map_Some option.map)
  also have "sum_list (map2 (*) p (replicate ?k (ln ?c))) = ln ?c"
    using s by (simp add: sum_list_map2_replicate)
  finally show ?thesis
    using prior by simp
qed

theorem log_standard_categorical_one_hot_witness:
  "is_one_hot [0, 1, 0]
   \<and> softmax (ones_like [0, 1, 0]) = replicate (length [0, 1, 0 :: real]) (1 / real (length [0, 1, 0 :: real]))
   \<and> log_standard_categorical [0, 1, 0] = Some (ln (1 / 3 + 1 / 10 ^ 8))"
proof -
  have h: "is_one_hot [0, 1, 0]"
    by (simp add: is_one_hot_def upt_rec)
  show ?thesis
    using h log_standard_categorical_one_hot [OF h] by simp
qed

section \<open>Properties of interpolate\<close>

lemma spaced_first: "spaced s e steps 0 = s"
  by (simp add: spaced_def)

lemma spaced_last: "0 \<le> steps \<Longrightarrow> spaced s e steps (nat (steps + 1)) = e"
  by (simp add: spaced_def)

lemma linspace_spaced:
  assumes "0 \<le> steps"
  shows "linspace s e (steps + 2) = Inr (map (spaced s e steps) [0..<nat (steps + 2)])"
proof -
  let ?n = "nat (steps + 2)"
  let ?y = "map (\<lambda>i. real i * ((e - s) / real_of_int (steps + 1)) + s) [0..<?n]"
  have n: "1 < ?n" "?n - 1 = nat (steps + 1)"
    using assms by auto
  have y: "?y = map (spaced s e steps) [0..<?n]"
    by (simp add: spaced_def add.commute)
  have "?y[?n - 1 := e] = ?y"
  proof (rule list_update_same_conv [THEN iffD2])
    show "?n - 1 < length ?y" using n by simp
    have "?y ! (?n - 1) = spaced s e steps (nat (steps + 1))"
      unfolding y using n by simp
    then show "?y ! (?n - 1) = e"
      using assms by (simp add: spaced_last)
  qed
  moreover have "linspace s e (steps + 2)
      = Inr ((map (\<lambda>i. real i * ((e - s) / real_of_int (steps + 2 - 1)) + s) [0..<?n])[?n - 1 := e])"
    using assms n(1) by (simp add: linspace_def Let_def)
  moreover have "steps + 2 - 1 = steps + 1"
    by simp
  ultimately have "linspace s e (steps + 2) = Inr ?y"
    by (simp only:)
  with y show ?thesis by (simp only:)
qed

lemma map2_first: "length xs = length ys \<Longrightarrow> map2 (\<lambda>x y. x) xs ys = xs"
  by (induction xs ys rule: list_induct2) simp_all

lemma map2_second: "length xs = length ys \<Longrightarrow> map2 (\<lambda>x y. y) xs ys = ys"
  by (induction xs ys rule: list_induct2) simp_all

lemma interpolate_loop_rows:
  assumes "0 \<le> steps" and "row_ix + length ses \<le> length a"
  shows "interpolate_loop a row_ix ses (steps + 2)
       = Inr (take row_ix a
              @ map (\<lambda>(s, e). map (spaced s e steps) [0..<nat (steps + 2)]) ses
              @ drop (row_ix + length ses) a)"
  using assms(2)
proof (induction ses arbitrary: a row_ix)
  case Nil
  then show ?case by simp
next
  case (Cons se ses)
  obtain s e where se: "se = (s, e)" by (cases se)
  let ?row = "map (spaced s e steps) [0..<nat (steps + 2)]"
  from Cons.prems have d: "row_ix < length a" by simp
  have len: "Suc row_ix + length ses \<le> length (a[row_ix := ?row])"
    using Cons.prems by simp
  have tk: "take (Suc row_ix) (a[row_ix := ?row]) = take row_ix a @ [?row]"
    using d by (simp add: take_Suc_conv_app_nth)
  have dr: "drop (Suc row_ix + length ses) (a[row_ix := ?row]) = drop (Suc row_ix + length ses) a"
    by simp
  show ?case
    using Cons.IH [OF len] linspace_spaced [OF assms(1), of s e]
    by (simp add: se tk dr)
qed

lemma interpolate_closed_form:
  assumes "length start = length endp" and "0 \<le> steps"
  shows "interpolate start endp steps
       = Inr (map (\<lambda>i. map2 (\<lambda>s e. spaced s e steps i) start endp) [0..<nat (steps + 2)])"
proof -
  let ?n = "nat (steps + 2)"
  let ?zeros = "replicate (length start) (replicate ?n (0::real))"
  let ?rows = "map (\<lambda>(s, e). map (spaced s e steps) [0..<?n]) (zip start endp)"
  have "0 + length (zip start endp) \<le> length ?zeros"
    using assms(1) by simp
  from interpolate_loop_rows [OF assms(2) this]
  have loop: "interpolate_loop ?zeros 0 (zip start endp) (steps + 2) = Inr ?rows"
    using assms(1) by simp
  have "T ?n ?rows = map (\<lambda>i. map2 (\<lambda>s e. spaced s e steps i) start endp) [0..<?n]"
    unfolding T_def by (auto simp: case_prod_unfold)
  with loop show ?thesis
    using assms(2) by (simp add: interpolate_def Let_def)
qed

text \<open>
  C4. For vectors \<open>start\<close> and \<open>endp\<close> of one length and \<open>steps \<ge> 0\<close>, \<open>interpolate\<close>
  returns \<open>steps + 2\<close> rows, each as long as the vectors; the first row is \<open>start\<close>, the
  last row is \<open>endp\<close>, and row \<open>i\<close> is \<open>start + i * (endp - start) / (steps + 1)\<close> in
  every component: the rows are evenly spaced on the line from \<open>start\<close> to \<open>endp\<close>.
\<close>

theorem interpolate_linear:
  assumes "length start = length endp" and "0 \<le> steps"
  shows "\<exists>rows. interpolate start endp steps = Inr rows
           \<and> length rows = nat (steps + 2)
           \<and> (\<forall>row \<in> set rows. length row = length start)
           \<and> rows ! 0 = start
           \<and> rows ! nat (steps + 1) = endp
           \<and> (\<forall>i < nat (steps + 2). \<forall>d < length start.
                 rows ! i ! d
                   = start ! d + real i * ((endp ! d - start ! d) / real_of_int (steps + 1)))"
proof -
  let ?n = "nat (steps + 2)"
  let ?rows = "map (\<lambda>i. map2 (\<lambda>s e. spaced s e steps i) start endp) [0..<?n]"
  have r: "interpolate start endp steps = Inr ?rows"
    using assms by (rule interpolate_closed_form)
  have n: "0 < ?n" "nat (steps + 1) < ?n"
    using assms(2) by auto
  have len: "\<forall>row \<in> set ?rows. length row = length start"
    using assms(1) by auto
  have first: "?rows ! 0 = start"
    using n(1) assms(1) by (simp add: spaced_first map2_first del: upt_Suc)
  have "?rows ! nat (steps + 1) = map2 (\<lambda>s e. e) start endp"
    using n(2) assms(2) by (simp add: spaced_last del: upt_Suc)
  then have last: "?rows ! nat (steps + 1) = endp"
    using assms(1) by (simp add: map2_second)
  have comp: "\<forall>i < ?n. \<forall>d < length start.
      ?rows ! i ! d = start ! d + real i * ((endp ! d - start ! d) / real_of_int (steps + 1))"
    using assms(1) by (simp add: spaced_def del: upt_Suc)
  from r len first last comp show ?thesis
    by (intro exI [of _ ?rows] conjI) simp_all
qed

theorem interpolate_linear_witness:
  "length [0, 10 :: real] = length [1, 20 :: real] \<and> (0::int) \<le> 1
   \<and> interpolate [0, 10] [1, 20] 1 = Inr [[0, 10], [1 / 2, 15], [1, 20]]
   \<and> (\<exists>rows. interpolate [0, 10] [1, 20] 1 = Inr rows
           \<and> length rows = nat (1 + 2)
           \<and> (\<forall>row \<in> set rows. length row = length [0, 10 :: real])
           \<and> rows ! 0 = [0, 10]
           \<and> rows ! nat (1 + 1) = [1, 20]
           \<and> (\<forall>i < nat (1 + 2). \<forall>d < length [0, 10 :: real].
                 rows ! i ! d
                   = [0, 10] ! d + real i * (([1, 20] ! d - [0, 10] ! d) / real_of_int (1 + 1))))"
proof -
  have h1: "length [0, 10 :: real] = length [1, 20 :: real]" by simp
  have h2: "(0::int) \<le> 1" by simp
  have v: "interpolate [0, 10] [1, 20] 1 = Inr [[0, 10], [1 / 2, 15], [1, 20]]"
    by (simp add: interpolate_def linspace_def T_def Let_def upt_rec)
  show ?thesis
    by (intro conjI h1 h2 v interpolate_linear [OF h1 h2])
qed

section \<open>Properties of compute_bow\<close>

lemma byte_0: "byte 0 = 0"
  by (simp add: byte_def)

lemma byte_1: "byte 1 = 1"
  by (simp add: byte_def)

lemma select_nonzero_tokens:
  "map fst (filter (\<lambda>(x, m). m \<noteq> 0)
      (zip document (map byte (map (\<lambda>t. if t \<noteq> 0 then 1 else 0) document))))
   = filter (\<lambda>t. t \<noteq> 0) document"
  by (induction document) (simp_all add: byte_0 byte_1)

lemma document_mask_bytes:
  "\<not> (\<exists>m \<in> set (map byte (map (\<lambda>t. if t \<noteq> 0 then 1 else 0) document)). m \<noteq> 0 \<and> m \<noteq> 1)"
  by (auto simp: byte_0 byte_1)

lemma masked_select_same_length:
  assumes "\<not> (\<exists>m \<in> set msk. m \<noteq> 0 \<and> m \<noteq> 1)" and "length xs = length msk"
  shows "masked_select xs msk = Inr (map fst (filter (\<lambda>(x, m). m \<noteq> 0) (zip xs msk)))"
  using assms by (simp add: masked_select_def)

lemma masked_select_document:
  "masked_select document (map byte (map (\<lambda>t. if t \<noteq> 0 then 1 else 0) document))
   = Inr (filter (\<lambda>t. t \<noteq> 0) document)"
proof -
  have "length document = length (map byte (map (\<lambda>t. if t \<noteq> 0 then 1 else 0) document))"
    by simp
  from masked_select_same_length [OF document_mask_bytes this] show ?thesis
    by (simp only: select_nonzero_tokens)
qed

lemma foldr_max_bound:
  "0 \<le> V \<Longrightarrow> \<forall>x \<in> set xs. x < V \<Longrightarrow> foldr max (map (\<lambda>x. x + 1) xs) 0 \<le> (V::int)"
  by (induction xs) simp_all

lemma bincount_in_range:
  assumes "0 \<le> V" and "\<forall>x \<in> set xs. 0 \<le> x \<and> x < V"
  shows "bincount xs V = Inr (map (\<lambda>v. count_list xs (int v)) [0..<nat V])"
proof -
  have "foldr max (map (\<lambda>x. x + 1) xs) 0 \<le> V"
    using assms by (intro foldr_max_bound) auto
  then have "max (nat V) (nat (foldr max (map (\<lambda>x. x + 1) xs) 0)) = nat V"
    by simp
  moreover have "\<not> (V < 0 \<or> (\<exists>x \<in> set xs. x < 0))"
    using assms by auto
  ultimately show ?thesis
    unfolding bincount_def Let_def by (simp only: if_False)
qed

lemma count_unmasked:
  "count_list (filter (\<lambda>t. t \<noteq> 0) document) (int v)
   = unmasked_count document (map (\<lambda>t. if t \<noteq> 0 then 1 else 0) document) v"
  by (induction document) (auto simp: unmasked_count_def)

lemma select_by_index:
  "length xs = length ms \<Longrightarrow>
   map fst (filter (\<lambda>(x, m). P m) (zip xs ms))
   = map ((!) xs) (filter (\<lambda>i. P (ms ! i)) [0..<length ms])"
proof (induction xs ms rule: list_induct2)
  case Nil
  then show ?case by simp
next
  case (Cons x xs m ms)
  have "[0..<length (m # ms)] = 0 # map Suc [0..<length ms]"
    by (simp add: upt_conv_Cons map_Suc_upt del: upt_Suc)
  then show ?case
    using Cons.IH by (simp add: filter_map comp_def del: upt_Suc)
qed

lemma counted_document:
  assumes "0 \<le> V" and "\<forall>t \<in> set document. 0 \<le> t \<and> t < V"
  shows "bincount (filter (\<lambda>t. t \<noteq> 0) document) V
       = Inr (map (\<lambda>v. unmasked_count document (map (\<lambda>t. if t \<noteq> 0 then 1 else 0) document) v)
               [0..<nat V])"
proof -
  have "\<forall>x \<in> set (filter (\<lambda>t. t \<noteq> 0) document). 0 \<le> x \<and> x < V"
    using assms(2) by simp
  from bincount_in_range [OF assms(1) this] show ?thesis
    by (simp only: count_unmasked)
qed

lemma count_vector_eq:
  "map real (map (\<lambda>v. unmasked_count document (map (\<lambda>t. if t \<noteq> 0 then 1 else 0) document) v)
     [0..<nat V]) = count_vector document V"
  by (simp add: count_vector_def comp_def del: upt_Suc)

lemma bow_vector_None:
  assumes "0 \<le> V" and "\<forall>t \<in> set document. 0 \<le> t \<and> t < V"
  shows "bow_vector document (map (\<lambda>t. if t \<noteq> 0 then 1 else 0) document) V None
       = Inr (count_vector document V)"
  unfolding bow_vector_def
  by (simp only: masked_select_document counted_document [OF assms] count_vector_eq
      sum.case option.case)

lemma stopword_mask_bytes:
  assumes "\<forall>x \<in> set stop. byte x = 0 \<or> byte x = 1"
  shows "\<not> (\<exists>m \<in> set (map (\<lambda>x. 1 - byte x) stop). m \<noteq> 0 \<and> m \<noteq> 1)"
  using assms by auto

lemma kept_selected:
  assumes "\<forall>x \<in> set stop. byte x = 0 \<or> byte x = 1"
  shows "filter (\<lambda>i. map (\<lambda>x. 1 - byte x) stop ! i \<noteq> 0) [0..<length (map (\<lambda>x. 1 - byte x) stop)]
       = kept stop"
  unfolding kept_def
proof (rule filter_cong)
  show "[0..<length (map (\<lambda>x. 1 - byte x) stop)] = [0..<length stop]" by simp
  fix i assume "i \<in> set [0..<length stop]"
  then have i: "i < length stop" by simp
  then have "byte (stop ! i) = 0 \<or> byte (stop ! i) = 1"
    using assms by simp
  then show "(map (\<lambda>x. 1 - byte x) stop ! i \<noteq> 0) = (byte (stop ! i) = 0)"
    using i by auto
qed

lemma bow_vector_Some:
  assumes "0 \<le> V" and "\<forall>t \<in> set document. 0 \<le> t \<and> t < V"
    and "length stop = nat V" and "\<forall>x \<in> set stop. byte x = 0 \<or> byte x = 1"
  shows "bow_vector document (map (\<lambda>t. if t \<noteq> 0 then 1 else 0) document) V (Some stop)
       = Inr (map ((!) (count_vector document V)) (kept stop))"
proof -
  let ?vec = "count_vector document V"
  let ?m = "map (\<lambda>x. 1 - byte x) stop"
  have len: "length ?vec = length ?m"
    using assms(3) by (simp add: count_vector_def)
  have "map fst (filter (\<lambda>(x, m). m \<noteq> 0) (zip ?vec ?m))
      = map ((!) ?vec) (filter (\<lambda>i. ?m ! i \<noteq> 0) [0..<length ?m])"
    using len by (rule select_by_index)
  then have "map fst (filter (\<lambda>(x, m). m \<noteq> 0) (zip ?vec ?m)) = map ((!) ?vec) (kept stop)"
    by (simp only: kept_selected [OF assms(4)])
  with masked_select_same_length [OF stopword_mask_bytes [OF assms(4)] len]
  have sel: "masked_select ?vec ?m = Inr (map ((!) ?vec) (kept stop))"
    by (simp only:)
  show ?thesis
    unfolding bow_vector_def
    by (simp only: masked_select_document counted_document [OF assms(1,2)] count_vector_eq sel
        sum.case option.case)
qed

lemma compute_bow_loop_rows:
  assumes "\<forall>document \<in> set documents. bow_vector document (g document) V s = Inr (f document)"
  shows "compute_bow_loop acc (map (\<lambda>d. (d, g d)) documents) V s = Inr (acc @ map f documents)"
  using assms by (induction documents arbitrary: acc) simp_all

lemma zip_with_image: "zip xs (map g xs) = map (\<lambda>d. (d, g d)) xs"
  by (induction xs) simp_all

lemma cat_rows:
  assumes "rows \<noteq> []" and "\<forall>r \<in> set rows. length r = n"
  shows "cat rows = Inr rows"
  using assms by (cases rows) (simp_all add: cat_def)

lemma compute_bow_rows:
  assumes "tokens \<noteq> []"
    and "\<forall>document \<in> set tokens.
           bow_vector document (map (\<lambda>t. if t \<noteq> 0 then 1 else 0) document) V s = Inr (f document)"
    and "\<forall>document \<in> set tokens. length (f document) = n"
  shows "compute_bow tokens V s = Inr (map f tokens)"
proof -
  have "compute_bow_loop [] (zip tokens (get_text_field_mask tokens)) V s = Inr ([] @ map f tokens)"
    unfolding get_text_field_mask_def zip_with_image
    using assms(2) by (rule compute_bow_loop_rows)
  moreover have "cat (map f tokens) = Inr (map f tokens)"
    using assms(1,3) by (intro cat_rows [where n = n]) auto
  ultimately show ?thesis
    by (simp add: compute_bow_def)
qed

text \<open>
  What \<open>compute_bow\<close> returns on a batch with at least one document whose token indices
  all lie in the vocabulary (\<open>0 \<le> t < vocab_size\<close>, index 0 being the padding that the
  mask hides). Without a stopword indicator: one row per document, each of length
  \<open>vocab_size\<close>, whose entry \<open>v\<close> is the number of unmasked occurrences of the index \<open>v\<close>
  in the document. With a stopword indicator of zeros and ones over the vocabulary:
  every row is that count vector restricted to the indices that are not flagged, in
  order, so a row has fewer than \<open>vocab_size\<close> entries as soon as one index is flagged.
\<close>

lemma compute_bow_counts:
  assumes "tokens \<noteq> []" and "0 \<le> vocab_size"
    and "\<forall>document \<in> set tokens. \<forall>t \<in> set document. 0 \<le> t \<and> t < vocab_size"
  shows "\<exists>bow. compute_bow tokens vocab_size None = Inr bow
           \<and> length bow = length tokens
           \<and> (\<forall>d < length tokens.
                 length (bow ! d) = nat vocab_size
                 \<and> (\<forall>v < nat vocab_size.
                       bow ! d ! v
                         = real (unmasked_count (tokens ! d) (get_text_field_mask tokens ! d) v)))
           \<and> (\<forall>stop. length stop = nat vocab_size \<and> (\<forall>x \<in> set stop. byte x = 0 \<or> byte x = 1) \<longrightarrow>
                 compute_bow tokens vocab_size (Some stop)
                   = Inr (map (\<lambda>row. map ((!) row) (kept stop)) bow))"
proof -
  let ?f = "\<lambda>document. count_vector document vocab_size"
  let ?bow = "map ?f tokens"
  have none: "compute_bow tokens vocab_size None = Inr ?bow"
  proof (rule compute_bow_rows [where n = "nat vocab_size"])
    show "tokens \<noteq> []" by (rule assms(1))
    show "\<forall>document \<in> set tokens.
        bow_vector document (map (\<lambda>t. if t \<noteq> 0 then 1 else 0) document) vocab_size None
          = Inr (?f document)"
      using assms(2,3) by (auto intro: bow_vector_None)
    show "\<forall>document \<in> set tokens. length (?f document) = nat vocab_size"
      by (simp add: count_vector_def)
  qed
  have rows: "\<forall>d < length tokens.
      length (?bow ! d) = nat vocab_size
      \<and> (\<forall>v < nat vocab_size.
            ?bow ! d ! v = real (unmasked_count (tokens ! d) (get_text_field_mask tokens ! d) v))"
    by (simp add: count_vector_def get_text_field_mask_def del: upt_Suc)
  have some: "compute_bow tokens vocab_size (Some stop)
      = Inr (map (\<lambda>row. map ((!) row) (kept stop)) ?bow)"
    if stop: "length stop = nat vocab_size \<and> (\<forall>x \<in> set stop. byte x = 0 \<or> byte x = 1)" for stop
  proof -
    let ?g = "\<lambda>document. map ((!) (?f document)) (kept stop)"
    have "compute_bow tokens vocab_size (Some stop) = Inr (map ?g tokens)"
    proof (rule compute_bow_rows [where n = "length (kept stop)"])
      show "tokens \<noteq> []" by (rule assms(1))
      show "\<forall>document \<in> set tokens.
          bow_vector document (map (\<lambda>t. if t \<noteq> 0 then 1 else 0) document) vocab_size (Some stop)
            = Inr (?g document)"
        using assms(2,3) stop by (auto intro: bow_vector_Some)
      show "\<forall>document \<in> set tokens. length (?g document) = length (kept stop)"
        by simp
    qed
    then show ?thesis
      by (simp add: comp_def)
  qed
  from none rows some show ?thesis
    by (intro exI [of _ ?bow] conjI allI impI) simp_all
qed

lemma kept_shorter:
  assumes "x \<in> set stop" and "byte x \<noteq> 0"
  shows "length (kept stop) < length stop"
proof -
  from assms(1) obtain i where i: "i < length stop" "stop ! i = x"
    by (auto simp: in_set_conv_nth)
  have "length (kept stop) < length [0..<length stop]"
    unfolding kept_def
    by (rule length_filter_less [of i]) (use i assms(2) in simp_all)
  then show ?thesis by simp
qed

text \<open>
  The hypotheses are needed: \<open>torch.bincount\<close> grows the row beyond \<open>vocab_size\<close> for an
  index outside the vocabulary, \<open>torch.cat\<close> refuses the empty list of rows of an empty
  batch, and \<open>torch.masked_select\<close> refuses the mask \<open>1 - 2 = 255\<close>. An indicator that
  flags every index leaves rows without entries.
\<close>

lemma compute_bow_out_of_vocabulary:
  "compute_bow [[5]] 3 None = Inr [[0, 0, 0, 0, 0, 1]]"
  by (simp add: compute_bow_def get_text_field_mask_def bow_vector_def masked_select_def
      bincount_def cat_def byte_def upt_rec)

lemma compute_bow_empty_batch: "compute_bow [] 3 None = Inl RuntimeError"
  by (simp add: compute_bow_def get_text_field_mask_def cat_def)

lemma compute_bow_mask_value: "compute_bow [[1, 2]] 3 (Some [0, 2, 1]) = Inl RuntimeError"
  by (simp add: compute_bow_def get_text_field_mask_def bow_vector_def masked_select_def
      bincount_def cat_def byte_def upt_rec)

lemma compute_bow_all_stopwords: "compute_bow [[1, 2]] 3 (Some [1, 1, 1]) = Inr [[]]"
  by (simp add: compute_bow_def get_text_field_mask_def bow_vector_def masked_select_def
      bincount_def cat_def byte_def upt_rec)

text \<open>
  C1. The property: for every batch, \<open>compute_bow\<close> returns one row per document, each a
  count vector of size \<open>vocab_size\<close> whose entry \<open>v\<close> is the number of unmasked
  occurrences of the vocabulary index \<open>v\<close> in the document, as the docstring
  (\<open>matrix of size NUM_DOCS X VOCAB_SIZE\<close>) has it. The code does not do this when a
  stopword indicator flags an index: for the one document \<open>[2, 2]\<close> over a vocabulary
  of size 3 with index 1 flagged, the row has two entries, not three, and its entry 1 is
  the count of index 2, while index 1 does not occur. Without the indicator the same
  batch gives the row \<open>[0, 0, 2]\<close> of the property.
\<close>

theorem compute_bow_drops_stopword_columns:
  "compute_bow [[2, 2]] 3 (Some [0, 1, 0]) = Inr [[0, 2]]
   \<and> length [0, 2 :: real] \<noteq> nat 3
   \<and> [0, 2 :: real] ! 1 \<noteq> real (unmasked_count ([[2, 2]] ! 0) (get_text_field_mask [[2, 2]] ! 0) 1)
   \<and> compute_bow [[2, 2]] 3 None = Inr [[0, 0, 2]]"
  by (simp add: compute_bow_def get_text_field_mask_def bow_vector_def masked_select_def
      bincount_def cat_def byte_def upt_rec unmasked_count_def)

section \<open>Properties of split_instances\<close>

lemma nelement_squeeze: "nelement (squeeze ixs) = length ixs"
proof (cases ixs)
  case Nil
  then show ?thesis by (simp add: squeeze_def)
next
  case (Cons i rest)
  then show ?thesis by (cases rest) (simp_all add: squeeze_def)
qed

lemma pick_rows:
  assumes "\<forall>i \<in> set ixs. i < length t"
  shows "\<exists>p. index_select t (squeeze ixs) = Inr p \<and> unsqueeze_single p = rows_at t ixs"
proof (cases ixs)
  case Nil
  then show ?thesis by (simp add: squeeze_def rows_at_def)
next
  case (Cons i rest)
  with assms show ?thesis by (cases rest) (simp_all add: squeeze_def rows_at_def)
qed

lemma nonzero_labeled: "nonzero is_labeled = labeled_ids is_labeled"
  by (simp add: nonzero_def labeled_ids_def)

lemma nonzero_unlabeled: "nonzero (eq_zero is_labeled) = unlabeled_ids is_labeled"
  unfolding nonzero_def unlabeled_ids_def eq_zero_def
  by (rule filter_cong) simp_all

lemma labeled_ids_bound: "i \<in> set (labeled_ids is_labeled) \<Longrightarrow> i < length is_labeled"
  by (simp add: labeled_ids_def)

lemma unlabeled_ids_bound: "i \<in> set (unlabeled_ids is_labeled) \<Longrightarrow> i < length is_labeled"
  by (simp add: unlabeled_ids_def)

lemma select_targets_rows:
  assumes "\<forall>tg. targets = Some tg \<longrightarrow> (\<exists>tt. tg ''tokens'' = Some tt \<and> length tt = n)"
    and "\<forall>i \<in> set ixs. i < n"
  shows "select_targets targets (squeeze ixs) \<lparr>inst_tokens = a, inst_label = b, inst_targets = None\<rparr>
       = Inr \<lparr>inst_tokens = a, inst_label = b,
              inst_targets = map_option (\<lambda>tt. rows_at tt ixs) (target_rows targets)\<rparr>"
proof (cases targets)
  case None
  then show ?thesis by (simp add: select_targets_def target_rows_def)
next
  case (Some tg)
  with assms(1) obtain tt where tt: "tg ''tokens'' = Some tt" "length tt = n" by auto
  with assms(2) have "\<forall>i \<in> set ixs. i < length tt" by simp
  from pick_rows [OF this] obtain p where
    "index_select tt (squeeze ixs) = Inr p" "unsqueeze_single p = rows_at tt ixs" by blast
  with Some tt show ?thesis
    by (simp add: select_targets_def target_rows_def getitem_def)
qed

lemma labeled_block_rows:
  assumes "tokens ''tokens'' = Some token_tensor" and "length token_tensor = n"
    and "\<forall>tg. targets = Some tg \<longrightarrow> (\<exists>tt. tg ''tokens'' = Some tt \<and> length tt = n)"
    and "label = Some label_tensor" and "length label_tensor = n"
    and "\<forall>i \<in> set ixs. i < n"
  shows "labeled_block tokens targets label (squeeze ixs)
       = Inr \<lparr>inst_tokens = Some (rows_at token_tensor ixs),
              inst_label = Some (rows_at label_tensor ixs),
              inst_targets = map_option (\<lambda>tt. rows_at tt ixs) (target_rows targets)\<rparr>"
proof -
  have "\<forall>i \<in> set ixs. i < length token_tensor"
    using assms(2,6) by simp
  from pick_rows [OF this] obtain p where
    p: "index_select token_tensor (squeeze ixs) = Inr p" "unsqueeze_single p = rows_at token_tensor ixs"
    by blast
  have "\<forall>i \<in> set ixs. i < length label_tensor"
    using assms(5,6) by simp
  from pick_rows [OF this] obtain q where
    q: "index_select label_tensor (squeeze ixs) = Inr q" "unsqueeze_single q = rows_at label_tensor ixs"
    by blast
  show ?thesis
    using assms(1,4) p q select_targets_rows [OF assms(3,6)]
    by (simp add: labeled_block_def getitem_def)
qed

lemma unlabeled_block_rows:
  assumes "tokens ''tokens'' = Some token_tensor" and "length token_tensor = n"
    and "\<forall>tg. targets = Some tg \<longrightarrow> (\<exists>tt. tg ''tokens'' = Some tt \<and> length tt = n)"
    and "\<forall>i \<in> set ixs. i < n"
  shows "unlabeled_block tokens targets (squeeze ixs)
       = Inr \<lparr>inst_tokens = Some (rows_at token_tensor ixs),
              inst_label = None,
              inst_targets = map_option (\<lambda>tt. rows_at tt ixs) (target_rows targets)\<rparr>"
proof -
  have "\<forall>i \<in> set ixs. i < length token_tensor"
    using assms(2,4) by simp
  from pick_rows [OF this] obtain p where
    p: "index_select token_tensor (squeeze ixs) = Inr p" "unsqueeze_single p = rows_at token_tensor ixs"
    by blast
  show ?thesis
    using assms(1) p select_targets_rows [OF assms(3,4)]
    by (simp add: unlabeled_block_def getitem_def)
qed

lemma split_instances_result:
  assumes "tokens ''tokens'' = Some token_tensor" and "length token_tensor = length is_labeled"
    and "\<forall>tg. targets = Some tg \<longrightarrow>
           (\<exists>tt. tg ''tokens'' = Some tt \<and> length tt = length is_labeled)"
    and "labeled_ids is_labeled \<noteq> [] \<longrightarrow>
           (\<exists>lt. label = Some lt \<and> length lt = length is_labeled)"
  shows "split_instances tokens is_labeled targets label
       = Inr (if labeled_ids is_labeled = [] then no_instances
              else \<lparr>inst_tokens = Some (rows_at token_tensor (labeled_ids is_labeled)),
                    inst_label = map_option (\<lambda>lt. rows_at lt (labeled_ids is_labeled)) label,
                    inst_targets = map_option (\<lambda>tt. rows_at tt (labeled_ids is_labeled))
                                     (target_rows targets)\<rparr>,
              if unlabeled_ids is_labeled = [] then no_instances
              else \<lparr>inst_tokens = Some (rows_at token_tensor (unlabeled_ids is_labeled)),
                    inst_label = None,
                    inst_targets = map_option (\<lambda>tt. rows_at tt (unlabeled_ids is_labeled))
                                     (target_rows targets)\<rparr>)"
proof -
  let ?li = "labeled_ids is_labeled" and ?ui = "unlabeled_ids is_labeled"
  have lb: "\<forall>i \<in> set ?li. i < length is_labeled"
    by (simp add: labeled_ids_bound)
  have ub: "\<forall>i \<in> set ?ui. i < length is_labeled"
    by (simp add: unlabeled_ids_bound)
  have L: "(if nelement (squeeze ?li) > 0 then labeled_block tokens targets label (squeeze ?li)
            else Inr no_instances)
         = Inr (if ?li = [] then no_instances
                else \<lparr>inst_tokens = Some (rows_at token_tensor ?li),
                      inst_label = map_option (\<lambda>lt. rows_at lt ?li) label,
                      inst_targets = map_option (\<lambda>tt. rows_at tt ?li) (target_rows targets)\<rparr>)"
  proof (cases "?li = []")
    case True
    then show ?thesis by (simp add: nelement_squeeze)
  next
    case False
    with assms(4) obtain lt where lt: "label = Some lt" "length lt = length is_labeled" by auto
    from labeled_block_rows [where tokens = tokens and n = "length is_labeled", OF assms(1,2,3) lt lb] False lt(1) show ?thesis
      by (simp add: nelement_squeeze)
  qed
  have U: "(if nelement (squeeze ?ui) > 0 then unlabeled_block tokens targets (squeeze ?ui)
            else Inr no_instances)
         = Inr (if ?ui = [] then no_instances
                else \<lparr>inst_tokens = Some (rows_at token_tensor ?ui),
                      inst_label = None,
                      inst_targets = map_option (\<lambda>tt. rows_at tt ?ui) (target_rows targets)\<rparr>)"
  proof (cases "?ui = []")
    case True
    then show ?thesis by (simp add: nelement_squeeze)
  next
    case False
    from unlabeled_block_rows [where tokens = tokens and n = "length is_labeled", OF assms(1,2,3) ub] False show ?thesis
      by (simp add: nelement_squeeze)
  qed
  show ?thesis
    unfolding split_instances_def Let_def nonzero_labeled nonzero_unlabeled
    by (simp only: L U sum.case)
qed

lemma ids_partition:
  shows "\<forall>i < length is_labeled.
      (i \<in> set (labeled_ids is_labeled) \<longleftrightarrow> is_labeled ! i \<noteq> 0)
      \<and> (i \<in> set (unlabeled_ids is_labeled) \<longleftrightarrow> is_labeled ! i = 0)"
    and "distinct (labeled_ids is_labeled)" and "distinct (unlabeled_ids is_labeled)"
    and "set (labeled_ids is_labeled) \<inter> set (unlabeled_ids is_labeled) = {}"
    and "set (labeled_ids is_labeled) \<union> set (unlabeled_ids is_labeled) = {..<length is_labeled}"
  by (auto simp: labeled_ids_def unlabeled_ids_def)

text \<open>
  C2, as the code has it. Take a batch with one token row (and, when targets are given,
  one target row) per entry of \<open>is_labeled\<close>, and with a label tensor of that length
  whenever some instance is labeled. Then \<open>split_instances\<close> returns two dictionaries.
  The labeled one holds the token rows, the labels and the target rows of exactly the
  instances with a non-zero \<open>is_labeled\<close>, in batch order; the unlabeled one holds the
  token rows and the target rows of exactly the instances whose \<open>is_labeled\<close> is zero,
  and no labels. A side without instances is the empty dictionary. Every instance is
  on exactly one side.
\<close>

theorem split_instances_partition:
  assumes "tokens ''tokens'' = Some token_tensor" and "length token_tensor = length is_labeled"
    and "\<forall>tg. targets = Some tg \<longrightarrow>
           (\<exists>tt. tg ''tokens'' = Some tt \<and> length tt = length is_labeled)"
    and "labeled_ids is_labeled \<noteq> [] \<longrightarrow>
           (\<exists>lt. label = Some lt \<and> length lt = length is_labeled)"
  shows "\<exists>labeled unlabeled.
           split_instances tokens is_labeled targets label = Inr (labeled, unlabeled)
         \<and> inst_tokens labeled
             = (if labeled_ids is_labeled = [] then None
                else Some (rows_at token_tensor (labeled_ids is_labeled)))
         \<and> inst_label labeled
             = (if labeled_ids is_labeled = [] then None
                else map_option (\<lambda>lt. rows_at lt (labeled_ids is_labeled)) label)
         \<and> inst_targets labeled
             = (if labeled_ids is_labeled = [] then None
                else map_option (\<lambda>tt. rows_at tt (labeled_ids is_labeled)) (target_rows targets))
         \<and> inst_tokens unlabeled
             = (if unlabeled_ids is_labeled = [] then None
                else Some (rows_at token_tensor (unlabeled_ids is_labeled)))
         \<and> inst_label unlabeled = None
         \<and> inst_targets unlabeled
             = (if unlabeled_ids is_labeled = [] then None
                else map_option (\<lambda>tt. rows_at tt (unlabeled_ids is_labeled)) (target_rows targets))
         \<and> (\<forall>i < length is_labeled.
               (i \<in> set (labeled_ids is_labeled) \<longleftrightarrow> is_labeled ! i \<noteq> 0)
               \<and> (i \<in> set (unlabeled_ids is_labeled) \<longleftrightarrow> is_labeled ! i = 0))
         \<and> distinct (labeled_ids is_labeled) \<and> distinct (unlabeled_ids is_labeled)
         \<and> set (labeled_ids is_labeled) \<inter> set (unlabeled_ids is_labeled) = {}
         \<and> set (labeled_ids is_labeled) \<union> set (unlabeled_ids is_labeled)
             = {..<length is_labeled}"
proof -
  define li where "li = labeled_ids is_labeled"
  define ui where "ui = unlabeled_ids is_labeled"
  define L where "L = (if li = [] then no_instances
            else \<lparr>inst_tokens = Some (rows_at token_tensor li),
                  inst_label = map_option (\<lambda>lt. rows_at lt li) label,
                  inst_targets = map_option (\<lambda>tt. rows_at tt li) (target_rows targets)\<rparr>)"
  define U where "U = (if ui = [] then no_instances
            else \<lparr>inst_tokens = Some (rows_at token_tensor ui),
                  inst_label = None,
                  inst_targets = map_option (\<lambda>tt. rows_at tt ui) (target_rows targets)\<rparr>)"
  have r: "split_instances tokens is_labeled targets label = Inr (L, U)"
    unfolding L_def U_def li_def ui_def using assms by (rule split_instances_result)
  have f1: "inst_tokens L = (if li = [] then None else Some (rows_at token_tensor li))"
    by (simp add: L_def no_instances_def)
  have f2: "inst_label L = (if li = [] then None else map_option (\<lambda>lt. rows_at lt li) label)"
    by (simp add: L_def no_instances_def)
  have f3: "inst_targets L
       = (if li = [] then None else map_option (\<lambda>tt. rows_at tt li) (target_rows targets))"
    by (simp add: L_def no_instances_def)
  have f4: "inst_tokens U = (if ui = [] then None else Some (rows_at token_tensor ui))"
    by (simp add: U_def no_instances_def)
  have f5: "inst_label U = None"
    by (simp add: U_def no_instances_def)
  have f6: "inst_targets U
       = (if ui = [] then None else map_option (\<lambda>tt. rows_at tt ui) (target_rows targets))"
    by (simp add: U_def no_instances_def)
  note p = ids_partition [of is_labeled, folded li_def ui_def]
  show ?thesis
    unfolding li_def [symmetric] ui_def [symmetric]
    by (intro exI [of _ L] exI [of _ U] conjI r f1 f2 f3 f4 f5 f6 p)
qed

theorem split_instances_partition_witness:
  "split_instances [''tokens'' \<mapsto> [[1, 2], [3, 4], [5, 6]]] [1, 0, 7]
     (Some [''tokens'' \<mapsto> [[11], [12], [13]]]) (Some [8, 9, 10])
   = Inr (\<lparr>inst_tokens = Some [[1, 2], [5, 6]], inst_label = Some [8, 10],
            inst_targets = Some [[11], [13]]\<rparr>,
          \<lparr>inst_tokens = Some [[3, 4]], inst_label = None, inst_targets = Some [[12]]\<rparr>)
   \<and> labeled_ids [1, 0, 7] = [0, 2] \<and> unlabeled_ids [1, 0, 7] = [1]"
proof -
  let ?tokens = "[''tokens'' \<mapsto> [[1, 2], [3, 4], [5, 6]]] :: string \<rightharpoonup> int list list"
  let ?tt = "[[1, 2], [3, 4], [5, 6]] :: int list list"
  let ?il = "[1, 0, 7] :: 32 word list"
  let ?targets = "Some [''tokens'' \<mapsto> [[11], [12], [13]]] :: (string \<rightharpoonup> int list list) option"
  let ?label = "Some [8, 9, 10] :: 32 word list option"
  have h1: "?tokens ''tokens'' = Some ?tt" by simp
  have h2: "length ?tt = length ?il" by simp
  have h3: "\<forall>tg. ?targets = Some tg \<longrightarrow>
              (\<exists>tt. tg ''tokens'' = Some tt \<and> length tt = length ?il)"
    by auto
  have h4: "labeled_ids ?il \<noteq> [] \<longrightarrow> (\<exists>lt. ?label = Some lt \<and> length lt = length ?il)"
    by simp
  have li: "labeled_ids ?il = [0, 2]"
    by (simp add: labeled_ids_def upt_rec)
  have ui: "unlabeled_ids ?il = [1]"
    by (simp add: unlabeled_ids_def upt_rec)
  from split_instances_partition [where tokens = ?tokens, OF h1 h2 h3 h4]
  obtain labeled unlabeled where
    r: "split_instances ?tokens ?il ?targets ?label = Inr (labeled, unlabeled)"
    and f: "inst_tokens labeled = Some [[1, 2], [5, 6]]"
      "inst_label labeled = Some [8, 10]"
      "inst_targets labeled = Some [[11], [13]]"
      "inst_tokens unlabeled = Some [[3, 4]]"
      "inst_label unlabeled = None"
      "inst_targets unlabeled = Some [[12]]"
    unfolding li ui by (auto simp: rows_at_def target_rows_def)
  have "labeled = \<lparr>inst_tokens = Some [[1, 2], [5, 6]], inst_label = Some [8, 10],
                   inst_targets = Some [[11], [13]]\<rparr>"
    and "unlabeled = \<lparr>inst_tokens = Some [[3, 4]], inst_label = None, inst_targets = Some [[12]]\<rparr>"
    using f by simp_all
  with r li ui show ?thesis by simp
qed

text \<open>
  C2 as written does not hold. The label of an unlabeled instance is in neither
  output: with the labels \<open>[7, 9]\<close> given and the second instance unlabeled, the
  unlabeled output has no \<open>"label"\<close> entry, and the labeled output holds the label 7
  only. And where the \<open>label\<close> argument is left at its default \<open>None\<close> while an instance
  is labeled, \<open>label[labeled_indices]\<close> raises and no instance reaches either output.
\<close>

theorem split_instances_counterexample:
  "split_instances [''tokens'' \<mapsto> [[1, 2], [3, 4]]] [1, 0] None (Some [7, 9])
   = Inr (\<lparr>inst_tokens = Some [[1, 2]], inst_label = Some [7], inst_targets = None\<rparr>,
          \<lparr>inst_tokens = Some [[3, 4]], inst_label = None, inst_targets = None\<rparr>)
   \<and> split_instances [''tokens'' \<mapsto> [[1, 2], [3, 4]]] [1, 0] None None = Inl TypeError"
  by (simp add: split_instances_def nonzero_def eq_zero_def squeeze_def labeled_block_def
      unlabeled_block_def select_targets_def getitem_def no_instances_def upt_rec)

section \<open>Properties of compute_background_log_frequency\<close>

lemma fold_update_upt:
  "k \<le> length t \<Longrightarrow> fold (\<lambda>i t. t[i := f i]) [0..<k] t = map f [0..<k] @ drop k t"
proof (induction k)
  case 0
  then show ?case by simp
next
  case (Suc k)
  then have k: "k < length t" by simp
  have "(map f [0..<k] @ drop k t)[k := f k] = map f [0..<k] @ (drop k t)[0 := f k]"
    by (simp add: list_update_append)
  also have "(drop k t)[0 := f k] = f k # drop (Suc k) t"
    using k by (simp add: Cons_nth_drop_Suc [symmetric])
  finally show ?case
    using Suc by simp
qed

lemma log_term_frequency_loop_fold:
  assumes "\<forall>i \<in> set ixs. i < length (vocab namespace)"
  shows "log_term_frequency_loop vocab namespace word_counts ixs t
       = Inr (fold (\<lambda>i t. t[i := term_frequency word_counts (vocab namespace ! i)]) ixs t)"
  using assms
proof (induction ixs arbitrary: t)
  case Nil
  then show ?case by simp
next
  case (Cons i ixs)
  then have i: "i < length (vocab namespace)" by simp
  show ?case
  proof (cases "word_counts (vocab namespace ! i)")
    case None
    with Cons i show ?thesis
      by (simp add: get_token_from_index_def term_frequency_def dom_def)
  next
    case (Some c)
    with Cons i show ?thesis
      by (simp add: get_token_from_index_def term_frequency_def dom_def getitem_def)
  qed
qed

lemma compute_background_log_frequency_result:
  assumes "files w path = Some word_counts"
  shows "compute_background_log_frequency w path vocab namespace
       = (Inr (map (\<lambda>token. torch_log (term_frequency word_counts token)) (vocab namespace)),
          w\<lparr>opened := opened w @ [path]\<rparr>)"
proof -
  let ?n = "length (vocab namespace)"
  let ?f = "\<lambda>i. term_frequency word_counts (vocab namespace ! i)"
  have "\<forall>i \<in> set [0..<?n]. i < length (vocab namespace)" by simp
  from log_term_frequency_loop_fold [where vocab = vocab and namespace = namespace, OF this]
  have "log_term_frequency_loop vocab namespace word_counts [0..<?n] (replicate ?n 0)
      = Inr (fold (\<lambda>i t. t[i := ?f i]) [0..<?n] (replicate ?n 0))" .
  also have "fold (\<lambda>i t. t[i := ?f i]) [0..<?n] (replicate ?n 0) = map ?f [0..<?n]"
    by (simp add: fold_update_upt)
  also have "map ?f [0..<?n] = map (term_frequency word_counts) (vocab namespace)"
    by (rule nth_equalityI) simp_all
  finally show ?thesis
    using assms
    by (simp add: compute_background_log_frequency_def json_load_open_def get_vocab_size_def
        comp_def)
qed

lemma torch_log_floor: "torch_log (1 / 10 ^ 12) = Some (ln (1 / 10 ^ 12))"
  by (simp add: torch_log_def)

text \<open>
  C6. When the file at the given path holds the word counts,
  \<open>compute_background_log_frequency\<close> opens that file once and nothing else, and returns a
  vector with one entry per token of the namespace: the logarithm of \<open>1e-12\<close> for a token
  that is one of \<open>@@UNKNOWN@@\<close>, \<open>@@PADDING@@\<close>, \<open>@@start@@\<close>, \<open>@@end@@\<close> or has no count in
  the file, and the logarithm of its count otherwise.
\<close>

theorem compute_background_log_frequency_vector:
  assumes "files w path = Some word_counts"
  shows "\<exists>v. compute_background_log_frequency w path vocab namespace
               = (Inr v, w\<lparr>opened := opened w @ [path]\<rparr>)
           \<and> length v = get_vocab_size vocab namespace
           \<and> (\<forall>i < get_vocab_size vocab namespace.
                 v ! i = (case word_counts (vocab namespace ! i) of
                            None \<Rightarrow> torch_log (1 / 10 ^ 12)
                          | Some c \<Rightarrow>
                              if vocab namespace ! i \<in> set special_tokens
                              then torch_log (1 / 10 ^ 12) else torch_log c))
           \<and> torch_log (1 / 10 ^ 12) = Some (ln (1 / 10 ^ 12))
           \<and> (\<forall>c > 0. torch_log c = Some (ln c))"
proof -
  let ?v = "map (\<lambda>token. torch_log (term_frequency word_counts token)) (vocab namespace)"
  have r: "compute_background_log_frequency w path vocab namespace
         = (Inr ?v, w\<lparr>opened := opened w @ [path]\<rparr>)"
    using assms by (rule compute_background_log_frequency_result)
  have len: "length ?v = get_vocab_size vocab namespace"
    by (simp add: get_vocab_size_def)
  have entries: "\<forall>i < get_vocab_size vocab namespace.
      ?v ! i = (case word_counts (vocab namespace ! i) of
                  None \<Rightarrow> torch_log (1 / 10 ^ 12)
                | Some c \<Rightarrow>
                    if vocab namespace ! i \<in> set special_tokens
                    then torch_log (1 / 10 ^ 12) else torch_log c)"
    by (simp add: get_vocab_size_def term_frequency_def split: option.split)
  have pos: "\<forall>c > 0. torch_log c = Some (ln c)"
    by (simp add: torch_log_def)
  show ?thesis
    by (intro exI [of _ ?v] conjI r len entries torch_log_floor pos)
qed

theorem compute_background_log_frequency_vector_witness:
  "compute_background_log_frequency
     \<lparr>files = [''counts.json'' \<mapsto> [''the'' \<mapsto> 5, ''@@UNKNOWN@@'' \<mapsto> 3]], opened = [],
      numpy_random = [], torch_random = []\<rparr>
     ''counts.json'' (\<lambda>namespace. [''@@UNKNOWN@@'', ''the'', ''zebra'']) ''vae''
   = (Inr [Some (ln (1 / 10 ^ 12)), Some (ln 5), Some (ln (1 / 10 ^ 12))],
      \<lparr>files = [''counts.json'' \<mapsto> [''the'' \<mapsto> 5, ''@@UNKNOWN@@'' \<mapsto> 3]],
       opened = [''counts.json''], numpy_random = [], torch_random = []\<rparr>)"
proof -
  let ?counts = "[''the'' \<mapsto> 5, ''@@UNKNOWN@@'' \<mapsto> 3] :: string \<rightharpoonup> real"
  let ?w = "\<lparr>files = [''counts.json'' \<mapsto> ?counts], opened = [],
            numpy_random = [], torch_random = []\<rparr>"
  let ?vocab = "\<lambda>namespace :: string. [''@@UNKNOWN@@'', ''the'', ''zebra'']"
  have h: "files ?w ''counts.json'' = Some ?counts" by simp
  from compute_background_log_frequency_vector
         [where w = ?w and vocab = ?vocab and namespace = "''vae''", OF h]
  obtain v where
    r: "compute_background_log_frequency ?w ''counts.json'' ?vocab ''vae''
        = (Inr v, ?w\<lparr>opened := opened ?w @ [''counts.json'']\<rparr>)"
    and len: "length v = get_vocab_size ?vocab ''vae''"
    and entries: "\<forall>i < get_vocab_size ?vocab ''vae''.
        v ! i = (case ?counts (?vocab ''vae'' ! i) of
                   None \<Rightarrow> torch_log (1 / 10 ^ 12)
                 | Some c \<Rightarrow>
                     if ?vocab ''vae'' ! i \<in> set special_tokens
                     then torch_log (1 / 10 ^ 12) else torch_log c)"
    by blast
  have n: "get_vocab_size ?vocab ''vae'' = 3"
    by (simp add: get_vocab_size_def)
  have "v ! 0 = Some (ln (1 / 10 ^ 12))" "v ! 1 = Some (ln 5)" "v ! 2 = Some (ln (1 / 10 ^ 12))"
    using entries [unfolded n, rule_format, of 0] entries [unfolded n, rule_format, of 1]
      entries [unfolded n, rule_format, of 2]
    by (simp_all add: special_tokens_def torch_log_def)
  moreover have "length v = 3"
    using len n by simp
  ultimately have "v = [Some (ln (1 / 10 ^ 12)), Some (ln 5), Some (ln (1 / 10 ^ 12))]"
    by (intro nth_equalityI) (auto simp: less_Suc_eq numeral_3_eq_3 numeral_2_eq_2)
  with r show ?thesis by simp
qed

text \<open>
  C5, as the code has it. A token of the vocabulary that has no entry in the word-counts
  file raises no missing-key fault: the test \<open>token not in precomputed_word_counts\<close>
  handles it inside the function, the call returns a vector, and the entry of the token
  is the logarithm of \<open>1e-12\<close>.
\<close>

theorem absent_token_handled_internally:
  assumes "files w path = Some word_counts"
    and "i < get_vocab_size vocab namespace"
    and "word_counts (vocab namespace ! i) = None"
  shows "\<exists>v. fst (compute_background_log_frequency w path vocab namespace) = Inr v
           \<and> v ! i = torch_log (1 / 10 ^ 12)
           \<and> v ! i = Some (ln (1 / 10 ^ 12))"
proof -
  let ?v = "map (\<lambda>token. torch_log (term_frequency word_counts token)) (vocab namespace)"
  have "fst (compute_background_log_frequency w path vocab namespace) = Inr ?v"
    using compute_background_log_frequency_result [OF assms(1)] by simp
  moreover have "?v ! i = torch_log (1 / 10 ^ 12)"
    using assms(2,3) by (simp add: get_vocab_size_def term_frequency_def)
  ultimately show ?thesis
    using torch_log_floor by (intro exI [of _ ?v]) simp
qed

theorem absent_token_handled_internally_witness:
  "fst (compute_background_log_frequency
     \<lparr>files = [''wc.json'' \<mapsto> [''cat'' \<mapsto> 2]], opened = [],
      numpy_random = [], torch_random = []\<rparr>
     ''wc.json'' (\<lambda>namespace. [''dog'']) ''vae'')
   = Inr [Some (ln (1 / 10 ^ 12))]"
proof -
  let ?counts = "[''cat'' \<mapsto> 2] :: string \<rightharpoonup> real"
  let ?w = "\<lparr>files = [''wc.json'' \<mapsto> ?counts], opened = [],
            numpy_random = [], torch_random = []\<rparr>"
  let ?vocab = "\<lambda>namespace :: string. [''dog'']"
  have h1: "files ?w ''wc.json'' = Some ?counts" by simp
  have h2: "0 < get_vocab_size ?vocab ''vae''" by (simp add: get_vocab_size_def)
  have h3: "?counts (?vocab ''vae'' ! 0) = None" by simp
  from absent_token_handled_internally
         [where w = ?w and vocab = ?vocab and namespace = "''vae''", OF h1 h2 h3]
  obtain v where
    r: "fst (compute_background_log_frequency ?w ''wc.json'' ?vocab ''vae'') = Inr v"
    and e: "v ! 0 = Some (ln (1 / 10 ^ 12))"
    by blast
  have "length v = 1"
    using r compute_background_log_frequency_result [OF h1, of ?vocab "''vae''"] by auto
  with e have "v = [Some (ln (1 / 10 ^ 12))]"
    by (cases v) simp_all
  with r show ?thesis by simp
qed

text \<open>
  C5 as written does not hold: with the token \<open>zebra\<close> absent from the file, the
  call returns a vector and no error reaches the caller.
\<close>

theorem absent_token_counterexample:
  "fst (compute_background_log_frequency
     \<lparr>files = [''counts.json'' \<mapsto> [''the'' \<mapsto> 5]], opened = [],
      numpy_random = [], torch_random = []\<rparr>
     ''counts.json'' (\<lambda>namespace. [''the'', ''zebra'']) ''vae'')
   = Inr [Some (ln 5), Some (ln (1 / 10 ^ 12))]
   \<and> fst (compute_background_log_frequency
     \<lparr>files = [''counts.json'' \<mapsto> [''the'' \<mapsto> 5]], opened = [],
      numpy_random = [], torch_random = []\<rparr>
     ''counts.json'' (\<lambda>namespace. [''the'', ''zebra'']) ''vae'')
   \<noteq> Inl KeyError"
  by (simp add: compute_background_log_frequency_def json_load_open_def get_vocab_size_def
      get_token_from_index_def getitem_def special_tokens_def torch_log_def upt_rec dom_def)

section \<open>Properties of check_dispersion and sample\<close>

text \<open>
  C10. On a tensor of at most two rows \<open>check_dispersion\<close> returns \<open>torch.zeros(1)\<close>,
  whatever \<open>num_sam\<close> is, and draws nothing: the generator and the tensor are as before.
\<close>

theorem check_dispersion_small_batch:
  assumes "length vecs \<le> 2"
  shows "check_dispersion w vecs num_sam = Some (Inr (Tensor [0]), vecs, w)"
  using assms by (simp add: check_dispersion_def)

theorem check_dispersion_small_batch_witness:
  "length [[1, 2], [3, 4 :: real]] \<le> 2
   \<and> check_dispersion \<lparr>files = Map.empty, opened = [], numpy_random = [5, 7], torch_random = []\<rparr>
        [[1, 2], [3, 4]] 10
     = Some (Inr (Tensor [0]), [[1, 2], [3, 4]],
             \<lparr>files = Map.empty, opened = [], numpy_random = [5, 7], torch_random = []\<rparr>)"
proof -
  have h: "length [[1, 2], [3, 4 :: real]] \<le> 2" by simp
  show ?thesis
    using h check_dispersion_small_batch [OF h] by simp
qed

text \<open>
  C9. With a strategy other than \<open>greedy\<close>, \<open>sample\<close> fails with the unbound-variable error
  and has drawn nothing; a call that returns a sample had the strategy \<open>greedy\<close>, and with
  that strategy the result is what \<open>torch.multinomial\<close> draws from the softmax of \<open>dist\<close>.
\<close>

theorem sample_only_greedy:
  "(strategy \<noteq> ''greedy'' \<longrightarrow> sample multinomial w distr strategy = (Inl UnboundLocalError, w))
   \<and> (\<forall>s w'. sample multinomial w distr strategy = (Inr s, w') \<longrightarrow> strategy = ''greedy'')
   \<and> (\<forall>drawn g. multinomial (torch_random w) (softmax distr) 1 = (Inr drawn, g) \<longrightarrow>
         sample multinomial w distr ''greedy'' = (Inr (squeeze drawn), w\<lparr>torch_random := g\<rparr>))"
  by (auto simp: sample_def)

theorem sample_only_greedy_witness:
  "''random'' \<noteq> ''greedy''
   \<and> sample (\<lambda>g p n. (Inr [0], tl g))
        \<lparr>files = Map.empty, opened = [], numpy_random = [], torch_random = [3, 4]\<rparr> [1, 2] ''random''
     = (Inl UnboundLocalError,
        \<lparr>files = Map.empty, opened = [], numpy_random = [], torch_random = [3, 4]\<rparr>)
   \<and> sample (\<lambda>g p n. (Inr [0], tl g))
        \<lparr>files = Map.empty, opened = [], numpy_random = [], torch_random = [3, 4]\<rparr> [1, 2] ''greedy''
     = (Inr (Scalar 0),
        \<lparr>files = Map.empty, opened = [], numpy_random = [], torch_random = [4]\<rparr>)"
proof -
  let ?m = "(\<lambda>g p n. (Inr [0], tl g)) :: sampler"
  let ?w = "\<lparr>files = Map.empty, opened = [], numpy_random = [], torch_random = [3, 4]\<rparr>"
  have h: "''random'' \<noteq> ''greedy''" by simp
  note t = sample_only_greedy [of "''random''" ?m ?w "[1, 2]"]
  from t h have a: "sample ?m ?w [1, 2] ''random'' = (Inl UnboundLocalError, ?w)"
    by blast
  have m: "?m (torch_random ?w) (softmax [1, 2]) 1 = (Inr [0], [4])"
    by simp
  from t m have "sample ?m ?w [1, 2] ''greedy'' = (Inr (squeeze [0]), ?w\<lparr>torch_random := [4]\<rparr>)"
    by blast
  then have b: "sample ?m ?w [1, 2] ''greedy''
      = (Inr (Scalar 0), \<lparr>files = Map.empty, opened = [], numpy_random = [], torch_random = [4]\<rparr>)"
    by (simp add: squeeze_def)
  from h a b show ?thesis by blast
qed

section \<open>Determinism\<close>













end
